theory Spec2Isabelle
  imports Main "HOL-Library.Word"
begin

unbundle bit_operations_syntax

section \<open>Data of the network-change monitor\<close>

text \<open>
  The monitor of \<^verbatim>\<open>monitoring/monitoring.go\<close> keeps two Go maps of type
  \<^verbatim>\<open>map[string]bool\<close> that it uses as sets of interface names. A Go map is a
  partial function; reading a missing key gives the zero value \<^verbatim>\<open>false\<close>, and
  \<^verbatim>\<open>delete\<close> of a missing key does nothing.
\<close>

type_synonym nameset = "string \<rightharpoonup> bool"

definition lookup :: "nameset \<Rightarrow> string \<Rightarrow> bool" where
  "lookup m k = (case m k of None \<Rightarrow> False | Some b \<Rightarrow> b)"

definition delete :: "nameset \<Rightarrow> string \<Rightarrow> nameset" where
  "delete m k = m(k := None)"

definition store_true :: "nameset \<Rightarrow> string \<Rightarrow> nameset" where
  "store_true m k = m(k \<mapsto> True)"

text \<open>The set a map stands for: the names whose lookup is true, which is how the code reads it.\<close>

definition names :: "nameset \<Rightarrow> string set" where
  "names m = {k. lookup m k}"

text \<open>
  Constants of Go's \<^verbatim>\<open>syscall\<close> and \<^verbatim>\<open>net\<close> packages on Linux. The netlink header
  type is a \<^verbatim>\<open>uint16\<close>; \<^verbatim>\<open>net.Flags\<close> is a \<^verbatim>\<open>uint\<close> (64 bits on the
  platforms the controller is built for) and \<^verbatim>\<open>net.FlagUp\<close> is its lowest bit.
\<close>

definition RTM_NEWLINK :: "16 word" where "RTM_NEWLINK = 16"
definition RTM_DELLINK :: "16 word" where "RTM_DELLINK = 17"
definition RTM_NEWROUTE :: "16 word" where "RTM_NEWROUTE = 24"
definition RTM_DELROUTE :: "16 word" where "RTM_DELROUTE = 25"
definition FlagUp :: "64 word" where "FlagUp = 1"

text \<open>
  The three notifications, with the fields the handlers read: \<^verbatim>\<open>Header.Type\<close>
  and \<^verbatim>\<open>Link\<close> of a \<^verbatim>\<open>netlink.LinkUpdate\<close>; \<^verbatim>\<open>LinkIndex\<close>,
  \<^verbatim>\<open>NewAddr\<close> and \<^verbatim>\<open>LinkAddress.IP\<close> of a \<^verbatim>\<open>netlink.AddrUpdate\<close>;
  \<^verbatim>\<open>Type\<close> and \<^verbatim>\<open>Route.Dst\<close> (a pointer, possibly nil) of a
  \<^verbatim>\<open>netlink.RouteUpdate\<close>. Addresses are only printed, so they stay the byte slices
  they are.

  \<^verbatim>\<open>Link\<close> is a value of the interface type \<^verbatim>\<open>netlink.Link\<close> and can be nil
  (\<open>None\<close>); a link that is there answers \<^verbatim>\<open>Attrs()\<close> with its name and flags.
  The loops read \<^verbatim>\<open>updateLink := <-chLink\<close> without the second result, so once
  the channel is closed they receive the zero value \<^verbatim>\<open>netlink.LinkUpdate{}\<close>:
  header type 0 and no link.
\<close>

type_synonym IP = "8 word list"
type_synonym IPNet = "IP \<times> IP"

record LinkAttrs =
  la_Name :: string
  la_Flags :: "64 word"

record LinkUpdate =
  lu_Type :: "16 word"
  lu_Link :: "LinkAttrs option"

definition LinkUpdate_zero :: LinkUpdate where
  "LinkUpdate_zero = \<lparr>lu_Type = 0, lu_Link = None\<rparr>"

record AddrUpdate =
  au_LinkIndex :: int
  au_NewAddr :: bool
  au_IP :: IP

record RouteUpdate =
  ru_Type :: "16 word"
  ru_Dst :: "IPNet option"

text \<open>
  \<^verbatim>\<open>event.GenericEvent{}\<close> is the only value ever sent: the zero value of the struct.
\<close>

datatype GenericEvent = GenericEvent

text \<open>One constructor for each \<^verbatim>\<open>fmt.Println\<close> call of the file, with its operands.\<close>

datatype println =
    Interface_removed string
  | Interface_added
  | Interface_is_up string
  | Interface_is_down string
  | Address_removed_from_the_deleted_interface IP
  | New_address_added_to_the_interface IP string
  | Address_removed_from_the_interface IP string
  | New_route_added "IPNet option"
  | Route_removed "IPNet option"
  | Error_invalid_flag
  | Error string

text \<open>
  The state the handlers work on: the two maps, the values sent on the output channel
  \<^verbatim>\<open>c\<close> so far (oldest first) and the lines printed so far. The channel is
  unbuffered, so a send returns once the reconciler has received the value; the model
  records each completed send.
\<close>

record monitor =
  interfaces :: nameset
  newlyCreated :: nameset
  chan_c :: "GenericEvent list"
  stdout :: "println list"

definition Println :: "println \<Rightarrow> monitor \<Rightarrow> monitor" where
  "Println l s = s\<lparr>stdout := stdout s @ [l]\<rparr>"

section \<open>The handlers\<close>

text \<open>
  A handler call either returns, with the state it leaves, or panics: the goroutine stops
  at a nil dereference, in the state reached so far, and nothing after it runs.
\<close>

datatype step = Running monitor | Panicked monitor

definition send :: "monitor \<Rightarrow> monitor" where
  "send s = s\<lparr>chan_c := chan_c s @ [GenericEvent]\<rparr>"

text \<open>
  On every path the first thing \<^verbatim>\<open>handleLinkUpdate\<close> evaluates after the header type
  is \<^verbatim>\<open>updateLink.Link.Attrs()\<close>: as an operand of the first \<^verbatim>\<open>Println\<close> when
  the type is \<^verbatim>\<open>RTM_DELLINK\<close>, in the condition of the second branch otherwise. With
  no link that call panics, before anything is printed, stored or sent.
\<close>

definition handleLinkUpdate :: "LinkUpdate \<Rightarrow> monitor \<Rightarrow> step" where
  "handleLinkUpdate updateLink s =
     (case lu_Link updateLink of
        None \<Rightarrow> Panicked s
      | Some Attrs \<Rightarrow>
          Running (send
            (if lu_Type updateLink = RTM_DELLINK then
               (Println (Interface_removed (la_Name Attrs)) s)
                 \<lparr>interfaces := delete (interfaces s) (la_Name Attrs),
                  newlyCreated := delete (newlyCreated s) (la_Name Attrs)\<rparr>
             else if \<not> lookup (interfaces s) (la_Name Attrs) \<and> lu_Type updateLink = RTM_NEWLINK then
               (Println Interface_added s)
                 \<lparr>interfaces := store_true (interfaces s) (la_Name Attrs),
                  newlyCreated := store_true (newlyCreated s) (la_Name Attrs)\<rparr>
             else if lu_Type updateLink = RTM_NEWLINK then
               (if la_Flags Attrs AND FlagUp \<noteq> 0 then
                  (Println (Interface_is_up (la_Name Attrs)) s)
                    \<lparr>newlyCreated := delete (newlyCreated s) (la_Name Attrs)\<rparr>
                else if \<not> lookup (newlyCreated s) (la_Name Attrs) then
                  Println (Interface_is_down (la_Name Attrs)) s
                else s)
             else s)))"

text \<open>
  \<^verbatim>\<open>net.InterfaceByIndex\<close> asks the host, whose interfaces change while the monitor
  runs: the handler takes the host's table at the time of the call, \<open>None\<close> where the
  call returns an error.
\<close>

type_synonym iftable = "int \<Rightarrow> string option"

definition handleAddrUpdate :: "iftable \<Rightarrow> AddrUpdate \<Rightarrow> monitor \<Rightarrow> monitor" where
  "handleAddrUpdate InterfaceByIndex updateAddr s =
     (case InterfaceByIndex (au_LinkIndex updateAddr) of
        None \<Rightarrow> Println (Address_removed_from_the_deleted_interface (au_IP updateAddr)) s
      | Some iface_Name \<Rightarrow>
          if au_NewAddr updateAddr then
            send (Println (New_address_added_to_the_interface (au_IP updateAddr) iface_Name) s)
          else
            send (Println (Address_removed_from_the_interface (au_IP updateAddr) iface_Name) s))"

definition handleRouteUpdate :: "RouteUpdate \<Rightarrow> monitor \<Rightarrow> monitor" where
  "handleRouteUpdate updateRoute s =
     send
       (if ru_Type updateRoute = RTM_NEWROUTE then Println (New_route_added (ru_Dst updateRoute)) s
        else if ru_Type updateRoute = RTM_DELROUTE then Println (Route_removed (ru_Dst updateRoute)) s
        else s)"

section \<open>The dispatch loops\<close>

text \<open>
  What one \<^verbatim>\<open>select\<close> receives: a value from one of the three channels. An address
  notification comes with the host's interface table at the moment it is handled.
  The loops never end by themselves; a run is the finite list of notifications received
  so far, in the order \<^verbatim>\<open>select\<close> took them. The loop functions give the state
  reached once all of them are handled, or the panic of the first handler call that
  panics, after which no further notification is handled.
\<close>

datatype received =
    updateLink LinkUpdate
  | updateAddr AddrUpdate iftable
  | updateRoute RouteUpdate

definition select_all :: "received \<Rightarrow> monitor \<Rightarrow> step" where
  "select_all r s =
     (case r of
        updateLink u \<Rightarrow> handleLinkUpdate u s
      | updateAddr u tbl \<Rightarrow> Running (handleAddrUpdate tbl u s)
      | updateRoute u \<Rightarrow> Running (handleRouteUpdate u s))"

fun loop_all :: "received list \<Rightarrow> monitor \<Rightarrow> step" where
  "loop_all [] s = Running s"
| "loop_all (r # rs) s =
     (case select_all r s of
        Running s' \<Rightarrow> loop_all rs s'
      | Panicked s' \<Rightarrow> Panicked s')"

definition select_masked :: "bool \<Rightarrow> bool \<Rightarrow> bool \<Rightarrow> received \<Rightarrow> monitor \<Rightarrow> step" where
  "select_masked link addr route r s =
     (case r of
        updateLink u \<Rightarrow> if link then handleLinkUpdate u s else Running s
      | updateAddr u tbl \<Rightarrow> if addr then Running (handleAddrUpdate tbl u s) else Running s
      | updateRoute u \<Rightarrow> if route then Running (handleRouteUpdate u s) else Running s)"

fun loop_masked :: "bool \<Rightarrow> bool \<Rightarrow> bool \<Rightarrow> received list \<Rightarrow> monitor \<Rightarrow> step" where
  "loop_masked link addr route [] s = Running s"
| "loop_masked link addr route (r # rs) s =
     (case select_masked link addr route r s of
        Running s' \<Rightarrow> loop_masked link addr route rs s'
      | Panicked s' \<Rightarrow> Panicked s')"

section \<open>The two entry points\<close>

text \<open>
  The host as the entry points meet it: the error of each subscription (\<open>None\<close> when it
  succeeds) and the result of \<^verbatim>\<open>netlink.LinkList\<close>, an error or the names of the
  links present.
\<close>

record host =
  AddrSubscribe :: "string option"
  LinkSubscribe :: "string option"
  RouteSubscribe :: "string option"
  LinkList :: "string + string list"

datatype subscription = chAddr | chLink | chRoute

text \<open>
  An entry point either returns (after printing an error), or is in its loop, waiting in
  \<^verbatim>\<open>select\<close> with every notification of the run handled, or has panicked in a
  handler call of its loop. Each carries the subscriptions that were established, in
  order, and the state.
\<close>

datatype outcome =
    Returned "subscription list" monitor
  | Selecting "subscription list" monitor
  | Crashed "subscription list" monitor

definition in_loop :: "subscription list \<Rightarrow> step \<Rightarrow> outcome" where
  "in_loop subs st = (case st of Running s \<Rightarrow> Selecting subs s | Panicked s \<Rightarrow> Crashed subs s)"

definition fresh :: monitor where
  "fresh = \<lparr>interfaces = Map.empty, newlyCreated = Map.empty, chan_c = [], stdout = []\<rparr>"

text \<open>The \<^verbatim>\<open>range links\<close> loop that seeds the map of interfaces.\<close>

fun range_links :: "string list \<Rightarrow> monitor \<Rightarrow> monitor" where
  "range_links [] s = s"
| "range_links (link_Name # links) s =
     range_links links (s\<lparr>interfaces := store_true (interfaces s) link_Name\<rparr>)"

definition startMonitoring :: "host \<Rightarrow> received list \<Rightarrow> outcome" where
  "startMonitoring h rs =
     (case AddrSubscribe h of
        Some err \<Rightarrow> Returned [] (Println (Error err) fresh)
      | None \<Rightarrow>
     (case LinkSubscribe h of
        Some err \<Rightarrow> Returned [chAddr] (Println (Error err) fresh)
      | None \<Rightarrow>
     (case RouteSubscribe h of
        Some err \<Rightarrow> Returned [chAddr, chLink] (Println (Error err) fresh)
      | None \<Rightarrow>
     (case LinkList h of
        Inl err \<Rightarrow> Returned [chAddr, chLink, chRoute] (Println (Error err) fresh)
      | Inr links \<Rightarrow>
          in_loop [chAddr, chLink, chRoute] (loop_all rs (range_links links fresh))))))"

text \<open>
  The \<^verbatim>\<open>switch flag\<close>: the values of (link, addr, route), \<open>None\<close> in the default
  case. The flag is a Go \<^verbatim>\<open>int\<close> that is only compared with the constants 1 to 7,
  so no arithmetic can overflow and an unbounded integer stands for it.
\<close>

definition switch_flag :: "int \<Rightarrow> (bool \<times> bool \<times> bool) option" where
  "switch_flag flag =
     (if flag = 1 then Some (True, False, False)
      else if flag = 2 then Some (False, True, False)
      else if flag = 3 then Some (True, True, False)
      else if flag = 4 then Some (False, False, True)
      else if flag = 5 then Some (True, False, True)
      else if flag = 6 then Some (False, True, True)
      else if flag = 7 then Some (True, True, True)
      else None)"

definition StartMonitoring :: "host \<Rightarrow> int \<Rightarrow> received list \<Rightarrow> outcome" where
  "StartMonitoring h flag rs =
     (case switch_flag flag of
        None \<Rightarrow> Returned [] (Println Error_invalid_flag fresh)
      | Some (link, addr, route) \<Rightarrow>
     (case AddrSubscribe h of
        Some err \<Rightarrow> Returned [] (Println (Error err) fresh)
      | None \<Rightarrow>
     (case LinkSubscribe h of
        Some err \<Rightarrow> Returned [chAddr] (Println (Error err) fresh)
      | None \<Rightarrow>
     (case RouteSubscribe h of
        Some err \<Rightarrow> Returned [chAddr, chLink] (Println (Error err) fresh)
      | None \<Rightarrow>
     (case LinkList h of
        Inl err \<Rightarrow> Returned [chAddr, chLink, chRoute] (Println (Error err) fresh)
      | Inr links \<Rightarrow>
          in_loop [chAddr, chLink, chRoute]
            (loop_masked link addr route rs (range_links links fresh)))))))"

section \<open>Notions the properties are stated with\<close>

text \<open>The state an outcome carries, and the state a handler call or a run ends in.\<close>

fun state_of :: "outcome \<Rightarrow> monitor" where
  "state_of (Returned subs s) = s"
| "state_of (Selecting subs s) = s"
| "state_of (Crashed subs s) = s"

fun step_state :: "step \<Rightarrow> monitor" where
  "step_state (Running s) = s"
| "step_state (Panicked s) = s"

text \<open>
  The name a link update is about, when it carries a link, and a link update that
  carries one, built from its header type, name and flags.
\<close>

definition lu_Name :: "LinkUpdate \<Rightarrow> string option" where
  "lu_Name u = map_option la_Name (lu_Link u)"

definition link_update :: "16 word \<Rightarrow> string \<Rightarrow> 64 word \<Rightarrow> LinkUpdate" where
  "link_update t n f = \<lparr>lu_Type = t, lu_Link = Some \<lparr>la_Name = n, la_Flags = f\<rparr>\<rparr>"

text \<open>
  Whether the class of a notification is switched on by the three booleans of
  \<^verbatim>\<open>StartMonitoring\<close>, and whether handling it ends in a \<^verbatim>\<open>send\<close>: for a link
  update when it carries a link, for a route update always, for an address update when
  \<^verbatim>\<open>net.InterfaceByIndex\<close> succeeds.
\<close>

definition enabled :: "bool \<Rightarrow> bool \<Rightarrow> bool \<Rightarrow> received \<Rightarrow> bool" where
  "enabled link addr route r =
     (case r of updateLink u \<Rightarrow> link | updateAddr u tbl \<Rightarrow> addr | updateRoute u \<Rightarrow> route)"

definition emits :: "bool \<Rightarrow> bool \<Rightarrow> bool \<Rightarrow> received \<Rightarrow> bool" where
  "emits link addr route r =
     (case r of
        updateLink u \<Rightarrow> link \<and> lu_Link u \<noteq> None
      | updateAddr u tbl \<Rightarrow> addr \<and> tbl (au_LinkIndex u) \<noteq> None
      | updateRoute u \<Rightarrow> route)"

text \<open>Every name of the newly-created set is a name of the existence set.\<close>

definition subset_invariant :: "monitor \<Rightarrow> bool" where
  "subset_invariant s \<longleftrightarrow> names (newlyCreated s) \<subseteq> names (interfaces s)"

text \<open>
  A notification leaves the operational up flag clear: a link update whose link lacks
  \<^verbatim>\<open>net.FlagUp\<close> (or that has no link to carry a flag), or any address or route
  update.
\<close>

definition up_clear :: "received \<Rightarrow> bool" where
  "up_clear r =
     (case r of
        updateLink u \<Rightarrow> (case lu_Link u of None \<Rightarrow> True | Some a \<Rightarrow> la_Flags a AND FlagUp = 0)
      | _ \<Rightarrow> True)"

text \<open>A name is newly created, or not known at all: the states in which no "down" is printed for it.\<close>

definition pending :: "string \<Rightarrow> monitor \<Rightarrow> bool" where
  "pending n s \<longleftrightarrow> lookup (newlyCreated s) n \<or> \<not> lookup (interfaces s) n"

text \<open>
  The existence set as the specification words it, over the history of the link
  notifications that were handled: a name is present when a link-add notification
  (\<^verbatim>\<open>RTM_NEWLINK\<close>) for it was handled and no link-delete notification
  (\<^verbatim>\<open>RTM_DELLINK\<close>) for it was handled later. The names enumerated at startup count
  as added before the history begins.
\<close>

definition is_add :: "string \<Rightarrow> LinkUpdate \<Rightarrow> bool" where
  "is_add n u \<longleftrightarrow> lu_Type u = RTM_NEWLINK \<and> lu_Name u = Some n"

definition is_delete :: "string \<Rightarrow> LinkUpdate \<Rightarrow> bool" where
  "is_delete n u \<longleftrightarrow> lu_Type u = RTM_DELLINK \<and> lu_Name u = Some n"

definition added_and_not_deleted :: "string list \<Rightarrow> LinkUpdate list \<Rightarrow> string \<Rightarrow> bool" where
  "added_and_not_deleted seeded hist n \<longleftrightarrow>
     (n \<in> set seeded \<and> (\<forall>d \<in> set hist. \<not> is_delete n d)) \<or>
     (\<exists>i \<in> {..<length hist}.
        is_add n (hist ! i) \<and> (\<forall>d \<in> set (drop (Suc i) hist). \<not> is_delete n d))"

text \<open>The link notifications of a run that reach \<^verbatim>\<open>handleLinkUpdate\<close>, in order.\<close>

fun handled_links :: "bool \<Rightarrow> received list \<Rightarrow> LinkUpdate list" where
  "handled_links link [] = []"
| "handled_links link (updateLink u # rs) =
     (if link then u # handled_links link rs else handled_links link rs)"
| "handled_links link (updateAddr u tbl # rs) = handled_links link rs"
| "handled_links link (updateRoute u # rs) = handled_links link rs"

section \<open>Facts about the maps and the handlers\<close>

lemma send_simps:
  "interfaces (send s) = interfaces s"
  "newlyCreated (send s) = newlyCreated s"
  "stdout (send s) = stdout s"
  "chan_c (send s) = chan_c s @ [GenericEvent]"
  by (simp_all add: send_def)

lemma Println_simps:
  "interfaces (Println l s) = interfaces s"
  "newlyCreated (Println l s) = newlyCreated s"
  "stdout (Println l s) = stdout s @ [l]"
  "chan_c (Println l s) = chan_c s"
  by (simp_all add: Println_def)

lemma lookup_delete: "lookup (delete m k) k' = (k' \<noteq> k \<and> lookup m k')"
  by (simp add: lookup_def delete_def)

lemma lookup_store_true: "lookup (store_true m k) k' = (k' = k \<or> lookup m k')"
  by (simp add: lookup_def store_true_def)

lemma delete_delete: "delete (delete m k) k = delete m k"
  by (simp add: delete_def)

lemma lookup_fresh: "lookup (interfaces fresh) n = False" "lookup (newlyCreated fresh) n = False"
  by (simp_all add: fresh_def lookup_def)

lemma NEWLINK_neq_DELLINK: "RTM_NEWLINK \<noteq> RTM_DELLINK"
  by (simp add: RTM_NEWLINK_def RTM_DELLINK_def)

lemma select_masked_simps:
  "select_masked link addr route (updateLink lu) s =
     (if link then handleLinkUpdate lu s else Running s)"
  "select_masked link addr route (updateAddr au tbl) s =
     (if addr then Running (handleAddrUpdate tbl au s) else Running s)"
  "select_masked link addr route (updateRoute ru) s =
     (if route then Running (handleRouteUpdate ru s) else Running s)"
  by (simp_all add: select_masked_def)

lemmas run_defs = select_masked_def handleLinkUpdate_def link_update_def send_def Println_def
  lookup_def store_true_def delete_def fresh_def RTM_NEWLINK_def RTM_DELLINK_def FlagUp_def

subsection \<open>When the link handler returns and when it panics\<close>


lemma handleLinkUpdate_returns:
  "lu_Link u = Some a \<Longrightarrow> s' = step_state (handleLinkUpdate u s) \<Longrightarrow>
   handleLinkUpdate u s = Running s'"
  by (simp add: handleLinkUpdate_def)

lemma handleLinkUpdate_Running_link: "handleLinkUpdate u s = Running s' \<Longrightarrow> lu_Link u \<noteq> None"
  by (auto simp: handleLinkUpdate_def split: option.splits)

subsection \<open>What each handler sends\<close>

lemma chan_c_handleLinkUpdate:
  "chan_c (step_state (handleLinkUpdate u s)) =
     (if lu_Link u = None then chan_c s else chan_c s @ [GenericEvent])"
  by (simp add: handleLinkUpdate_def send_simps Println_simps split: option.split)

lemma chan_c_handleRouteUpdate: "chan_c (handleRouteUpdate u s) = chan_c s @ [GenericEvent]"
  by (simp add: handleRouteUpdate_def send_simps Println_simps)

lemma chan_c_handleAddrUpdate:
  "chan_c (handleAddrUpdate tbl u s) =
     (case tbl (au_LinkIndex u) of None \<Rightarrow> chan_c s | Some n \<Rightarrow> chan_c s @ [GenericEvent])"
  by (simp add: handleAddrUpdate_def send_simps Println_simps split: option.split)

lemma chan_c_select_masked:
  "chan_c (step_state (select_masked link addr route r s)) =
     (if emits link addr route r then chan_c s @ [GenericEvent] else chan_c s)"
  by (cases r)
    (auto simp: select_masked_simps emits_def chan_c_handleLinkUpdate chan_c_handleRouteUpdate
      chan_c_handleAddrUpdate)

lemma loop_masked_Cons_Running:
  "loop_masked link addr route (r # rs) s = Running s' \<longleftrightarrow>
     (\<exists>s1. select_masked link addr route r s = Running s1 \<and>
           loop_masked link addr route rs s1 = Running s')"
  by (simp split: step.split)

lemma chan_c_loop_masked:
  "loop_masked link addr route rs s = Running s' \<Longrightarrow>
   chan_c s' = chan_c s @ replicate (length (filter (emits link addr route) rs)) GenericEvent"
proof (induction rs arbitrary: s)
  case Nil
  then show ?case by simp
next
  case (Cons r rs)
  from Cons.prems obtain s1 where r: "select_masked link addr route r s = Running s1"
    and rest: "loop_masked link addr route rs s1 = Running s'"
    unfolding loop_masked_Cons_Running by blast
  from r have "chan_c s1 =
      (if emits link addr route r then chan_c s @ [GenericEvent] else chan_c s)"
    using chan_c_select_masked [of link addr route r s] by simp
  with Cons.IH [OF rest] show ?case
    by (simp add: replicate_append_same)
qed

lemma linked_event_emits_exactly_one_signal:
  "(link \<and> lu_Link lu \<noteq> None \<longrightarrow>
      select_masked link addr route (updateLink lu) s =
        Running (step_state (select_masked link addr route (updateLink lu) s)) \<and>
      chan_c (step_state (select_masked link addr route (updateLink lu) s)) =
        chan_c s @ [GenericEvent]) \<and>
   (route \<longrightarrow>
      select_masked link addr route (updateRoute ru) s = Running (handleRouteUpdate ru s) \<and>
      chan_c (handleRouteUpdate ru s) = chan_c s @ [GenericEvent]) \<and>
   (addr \<and> tbl (au_LinkIndex au) \<noteq> None \<longrightarrow>
      select_masked link addr route (updateAddr au tbl) s = Running (handleAddrUpdate tbl au s) \<and>
      chan_c (handleAddrUpdate tbl au s) = chan_c s @ [GenericEvent])"
proof -
  have l: "select_masked link addr route (updateLink lu) s =
      Running (step_state (select_masked link addr route (updateLink lu) s))"
    "chan_c (step_state (select_masked link addr route (updateLink lu) s)) =
      chan_c s @ [GenericEvent]"
    if "link" "lu_Link lu \<noteq> None"
  proof -
    from that(2) obtain a where "lu_Link lu = Some a" by blast
    then have "handleLinkUpdate lu s = Running (step_state (handleLinkUpdate lu s))"
      by (rule handleLinkUpdate_returns) (rule refl)
    with that(1) show "select_masked link addr route (updateLink lu) s =
      Running (step_state (select_masked link addr route (updateLink lu) s))"
      by (simp only: select_masked_simps if_True)
    from that show "chan_c (step_state (select_masked link addr route (updateLink lu) s)) =
      chan_c s @ [GenericEvent]"
      by (simp add: chan_c_select_masked emits_def)
  qed
  have r: "select_masked link addr route (updateRoute ru) s = Running (handleRouteUpdate ru s)"
    if "route"
    using that by (simp add: select_masked_simps)
  have a: "select_masked link addr route (updateAddr au tbl) s = Running (handleAddrUpdate tbl au s)"
    "chan_c (handleAddrUpdate tbl au s) = chan_c s @ [GenericEvent]"
    if "addr" "tbl (au_LinkIndex au) \<noteq> None"
    using that by (auto simp: select_masked_simps chan_c_handleAddrUpdate)
  from l r a show ?thesis
    by (simp add: chan_c_handleRouteUpdate)
qed

lemma handleLinkUpdate_other_type_linked:
  assumes "lu_Type u \<noteq> RTM_NEWLINK" and "lu_Type u \<noteq> RTM_DELLINK" and "lu_Link u = Some a"
  shows "handleLinkUpdate u s = Running (s\<lparr>chan_c := chan_c s @ [GenericEvent]\<rparr>)"
  using assms by (simp add: handleLinkUpdate_def send_def)

subsection \<open>What each handler does to the two maps\<close>

lemma interfaces_handleLinkUpdate:
  "lookup (interfaces (step_state (handleLinkUpdate u s))) n =
     (if lu_Name u = Some n \<and> lu_Type u = RTM_DELLINK then False
      else if lu_Name u = Some n \<and> lu_Type u = RTM_NEWLINK then True
      else lookup (interfaces s) n)"
  by (auto simp: handleLinkUpdate_def lu_Name_def send_simps Println_simps lookup_delete
      lookup_store_true NEWLINK_neq_DELLINK split: option.split)

lemma newlyCreated_handleLinkUpdate:
  "lookup (newlyCreated (step_state (handleLinkUpdate u s))) n =
     (case lu_Link u of
        None \<Rightarrow> lookup (newlyCreated s) n
      | Some a \<Rightarrow>
          if la_Name a = n \<and> lu_Type u = RTM_DELLINK then False
          else if la_Name a = n \<and> lu_Type u = RTM_NEWLINK then
            (if lookup (interfaces s) n then la_Flags a AND FlagUp = 0 \<and> lookup (newlyCreated s) n
             else True)
          else lookup (newlyCreated s) n)"
  by (auto simp: handleLinkUpdate_def send_simps Println_simps lookup_delete lookup_store_true
      NEWLINK_neq_DELLINK split: option.split)

lemma sets_handleAddrUpdate:
  "interfaces (handleAddrUpdate tbl u s) = interfaces s"
  "newlyCreated (handleAddrUpdate tbl u s) = newlyCreated s"
  by (simp_all add: handleAddrUpdate_def send_simps Println_simps split: option.split)

lemma sets_handleRouteUpdate:
  "interfaces (handleRouteUpdate u s) = interfaces s"
  "newlyCreated (handleRouteUpdate u s) = newlyCreated s"
  by (simp_all add: handleRouteUpdate_def send_simps Println_simps)

lemma sets_select_masked_other:
  "interfaces (step_state (select_masked link addr route (updateAddr au tbl) s)) = interfaces s"
  "newlyCreated (step_state (select_masked link addr route (updateAddr au tbl) s)) = newlyCreated s"
  "interfaces (step_state (select_masked link addr route (updateRoute ru) s)) = interfaces s"
  "newlyCreated (step_state (select_masked link addr route (updateRoute ru) s)) = newlyCreated s"
  by (simp_all add: select_masked_simps sets_handleAddrUpdate sets_handleRouteUpdate)

lemma newlyCreated_range_links: "newlyCreated (range_links links s) = newlyCreated s"
  by (induction links arbitrary: s) simp_all

lemma interfaces_range_links:
  "lookup (interfaces (range_links links s)) n = (n \<in> set links \<or> lookup (interfaces s) n)"
  by (induction links arbitrary: s) (auto simp: lookup_store_true)

subsection \<open>Every handler call leaves a trace\<close>

lemma handleLinkUpdate_changes: "handleLinkUpdate u s \<noteq> Running s"
proof
  assume "handleLinkUpdate u s = Running s"
  then have "lu_Link u \<noteq> None" and "chan_c (step_state (handleLinkUpdate u s)) = chan_c s"
    by (simp_all add: handleLinkUpdate_Running_link)
  then show False by (auto simp: chan_c_handleLinkUpdate)
qed

lemma handleRouteUpdate_changes: "handleRouteUpdate u s \<noteq> s"
proof
  assume "handleRouteUpdate u s = s"
  then have "chan_c (handleRouteUpdate u s) = chan_c s" by simp
  then show False by (simp add: chan_c_handleRouteUpdate)
qed

lemma handleAddrUpdate_changes: "handleAddrUpdate tbl u s \<noteq> s"
proof
  assume "handleAddrUpdate tbl u s = s"
  then have "stdout (handleAddrUpdate tbl u s) = stdout s" by simp
  then show False
    by (simp add: handleAddrUpdate_def send_simps Println_simps split: option.splits if_splits)
qed

lemma select_all_changes: "select_all r s \<noteq> Running s"
  by (cases r)
    (simp_all add: select_all_def handleLinkUpdate_changes handleAddrUpdate_changes
      handleRouteUpdate_changes)

subsection \<open>The loops\<close>

lemma select_masked_all: "select_masked True True True r s = select_all r s"
  by (cases r) (simp_all add: select_masked_simps select_all_def)

lemma loop_masked_all: "loop_masked True True True rs s = loop_all rs s"
  by (induction rs arbitrary: s) (simp_all add: select_masked_all split: step.split)

lemma loop_masked_snoc:
  "loop_masked link addr route (rs @ [r]) s =
     (case loop_masked link addr route rs s of
        Running s' \<Rightarrow> select_masked link addr route r s'
      | Panicked s' \<Rightarrow> Panicked s')"
  by (induction rs arbitrary: s) (simp_all split: step.split)

lemma select_masked_disabled:
  "\<not> enabled link addr route r \<Longrightarrow> select_masked link addr route r s = Running s"
  by (cases r) (simp_all add: enabled_def select_masked_simps)

lemma loop_masked_filter_enabled:
  "loop_masked link addr route (filter (enabled link addr route) rs) s =
   loop_masked link addr route rs s"
  by (induction rs arbitrary: s) (simp_all add: select_masked_disabled split: step.split)

lemma handled_links_snoc:
  "handled_links link (rs @ [r]) =
   handled_links link rs @ (case r of updateLink u \<Rightarrow> if link then [u] else [] | _ \<Rightarrow> [])"
  by (induction link rs rule: handled_links.induct) (simp_all split: received.split)

lemma state_of_in_loop: "state_of (in_loop subs st) = step_state st"
  by (cases st) (simp_all add: in_loop_def)

subsection \<open>The subset invariant\<close>

lemma subset_invariant_handleLinkUpdate:
  "subset_invariant s \<Longrightarrow> subset_invariant (step_state (handleLinkUpdate u s))"
  by (auto simp: subset_invariant_def names_def interfaces_handleLinkUpdate
      newlyCreated_handleLinkUpdate lu_Name_def split: if_splits option.splits)

lemma subset_invariant_select_masked:
  "subset_invariant s \<Longrightarrow> subset_invariant (step_state (select_masked link addr route r s))"
  by (cases r)
    (simp_all add: select_masked_simps subset_invariant_handleLinkUpdate,
      simp_all add: subset_invariant_def sets_handleAddrUpdate sets_handleRouteUpdate)

lemma subset_invariant_loop_masked:
  "subset_invariant s \<Longrightarrow> subset_invariant (step_state (loop_masked link addr route rs s))"
proof (induction rs arbitrary: s)
  case Nil
  then show ?case by simp
next
  case (Cons r rs)
  from Cons.prems have inv: "subset_invariant (step_state (select_masked link addr route r s))"
    by (rule subset_invariant_select_masked)
  show ?case
  proof (cases "select_masked link addr route r s")
    case (Running s1)
    with inv Cons.IH [of s1] show ?thesis by simp
  next
    case (Panicked s1)
    with inv show ?thesis by simp
  qed
qed

lemma subset_invariant_seeded: "subset_invariant (range_links links fresh)"
  by (simp add: subset_invariant_def names_def newlyCreated_range_links lookup_fresh)

lemma subset_invariant_Println_fresh: "subset_invariant (Println l fresh)"
  by (simp add: subset_invariant_def names_def Println_simps lookup_fresh)

lemma subset_invariant_StartMonitoring: "subset_invariant (state_of (StartMonitoring h flag rs))"
  by (simp add: StartMonitoring_def subset_invariant_Println_fresh subset_invariant_loop_masked
      subset_invariant_seeded state_of_in_loop split: option.split sum.split prod.split)

lemma subset_invariant_startMonitoring: "subset_invariant (state_of (startMonitoring h rs))"
  by (simp add: startMonitoring_def subset_invariant_Println_fresh subset_invariant_loop_masked
      subset_invariant_seeded state_of_in_loop loop_masked_all [symmetric]
      split: option.split sum.split)

subsection \<open>Names that are newly created or unknown\<close>

lemma pending_handleLinkUpdate:
  "pending n s \<Longrightarrow> up_clear (updateLink u) \<Longrightarrow> pending n (step_state (handleLinkUpdate u s))"
  by (auto simp: pending_def up_clear_def interfaces_handleLinkUpdate
      newlyCreated_handleLinkUpdate lu_Name_def split: option.splits)

lemma pending_select_masked:
  "pending n s \<Longrightarrow> up_clear r \<Longrightarrow> pending n (step_state (select_masked link addr route r s))"
proof (cases r)
  case (updateLink u)
  assume "pending n s" "up_clear r"
  with updateLink show ?thesis
    by (simp add: select_masked_simps pending_handleLinkUpdate)
next
  case (updateAddr u tbl)
  assume "pending n s"
  with updateAddr show ?thesis
    by (simp add: pending_def sets_select_masked_other)
next
  case (updateRoute u)
  assume "pending n s"
  with updateRoute show ?thesis
    by (simp add: pending_def sets_select_masked_other)
qed

lemma pending_loop_masked:
  "pending n s \<Longrightarrow> \<forall>r \<in> set rs. up_clear r \<Longrightarrow>
   loop_masked link addr route rs s = Running s' \<Longrightarrow> pending n s'"
proof (induction rs arbitrary: s)
  case Nil
  then show ?case by simp
next
  case (Cons r rs)
  from Cons.prems(3) obtain s1 where r: "select_masked link addr route r s = Running s1"
    and rest: "loop_masked link addr route rs s1 = Running s'"
    unfolding loop_masked_Cons_Running by blast
  from Cons.prems(1,2) have "pending n (step_state (select_masked link addr route r s))"
    by (simp add: pending_select_masked)
  with r have "pending n s1" by simp
  with Cons.IH [OF _ _ rest] Cons.prems(2) show ?case by simp
qed

lemma stdout_handleLinkUpdate_pending:
  assumes "pending n s" and "lu_Type m = RTM_NEWLINK" and "lu_Link m = Some a"
    and "la_Name a = n" and "la_Flags a AND FlagUp = 0"
  shows "stdout (step_state (handleLinkUpdate m s)) =
           (if lookup (interfaces s) n then stdout s else stdout s @ [Interface_added])"
  using assms
  by (auto simp: pending_def handleLinkUpdate_def send_simps Println_simps NEWLINK_neq_DELLINK)

subsection \<open>The existence set and the history\<close>

lemma not_add_and_delete: "is_add n u \<Longrightarrow> \<not> is_delete n u"
  by (simp add: is_add_def is_delete_def NEWLINK_neq_DELLINK)

lemma added_and_not_deleted_snoc:
  "added_and_not_deleted seeded (hist @ [u]) n \<longleftrightarrow>
     (if is_delete n u then False
      else if is_add n u then True
      else added_and_not_deleted seeded hist n)"
proof (cases "is_delete n u")
  case True
  have "\<exists>d \<in> set (drop (Suc i) (hist @ [u])). is_delete n d"
    if "i < Suc (length hist)" "is_add n ((hist @ [u]) ! i)" for i
  proof (cases "i = length hist")
    case True
    with that \<open>is_delete n u\<close> show ?thesis by (simp add: not_add_and_delete)
  next
    case False
    with that have "i < length hist" by simp
    with \<open>is_delete n u\<close> show ?thesis by simp
  qed
  with True show ?thesis by (auto simp: added_and_not_deleted_def)
next
  case nodel: False
  show ?thesis
  proof (cases "is_add n u")
    case True
    then have "\<exists>i \<in> {..<length (hist @ [u])}. is_add n ((hist @ [u]) ! i) \<and>
        (\<forall>d \<in> set (drop (Suc i) (hist @ [u])). \<not> is_delete n d)"
      by (intro bexI [of _ "length hist"]) simp_all
    with True nodel show ?thesis by (simp add: added_and_not_deleted_def)
  next
    case False
    have "(\<exists>i \<in> {..<length (hist @ [u])}. is_add n ((hist @ [u]) ! i) \<and>
        (\<forall>d \<in> set (drop (Suc i) (hist @ [u])). \<not> is_delete n d)) \<longleftrightarrow>
      (\<exists>i \<in> {..<length hist}. is_add n (hist ! i) \<and>
        (\<forall>d \<in> set (drop (Suc i) hist). \<not> is_delete n d))"
      using False nodel by (auto simp: lessThan_Suc nth_append)
    with False nodel show ?thesis by (simp add: added_and_not_deleted_def)
  qed
qed

lemma interfaces_loop_masked:
  "loop_masked link addr route rs (range_links seeded fresh) = Running s \<Longrightarrow>
   lookup (interfaces s) n \<longleftrightarrow> added_and_not_deleted seeded (handled_links link rs) n"
proof (induction rs arbitrary: s rule: rev_induct)
  case Nil
  then show ?case
    by (auto simp: interfaces_range_links added_and_not_deleted_def lookup_fresh)
next
  case (snoc r rs)
  from snoc.prems obtain s1
    where before: "loop_masked link addr route rs (range_links seeded fresh) = Running s1"
      and last: "select_masked link addr route r s1 = Running s"
    by (auto simp: loop_masked_snoc split: step.splits)
  note IH = snoc.IH [OF before]
  from last have s: "s = step_state (select_masked link addr route r s1)" by simp
  show ?case
  proof (cases r)
    case (updateLink u)
    show ?thesis
    proof (cases link)
      case True
      with updateLink IH show ?thesis
        unfolding s
        by (simp add: handled_links_snoc select_masked_simps interfaces_handleLinkUpdate
            added_and_not_deleted_snoc is_add_def is_delete_def NEWLINK_neq_DELLINK)
    next
      case False
      with updateLink IH show ?thesis
        unfolding s by (simp add: handled_links_snoc select_masked_simps)
    qed
  next
    case (updateAddr u tbl)
    with IH show ?thesis
      unfolding s by (simp add: handled_links_snoc sets_select_masked_other)
  next
    case (updateRoute u)
    with IH show ?thesis
      unfolding s by (simp add: handled_links_snoc sets_select_masked_other)
  qed
qed

section \<open>The properties\<close>



text \<open>
  C2. Let a link-add notification for a name that is not in the existence set be
  handled, then any notifications that leave the up flag clear (none at all in the
  simplest case), then an \<^verbatim>\<open>RTM_NEWLINK\<close> notification for the same name with the up
  flag clear. Both handler calls return, the last one prints no "is down" line (it prints
  nothing, or "Interface added" when the name was deleted in between; nothing when it
  follows the add directly), and the name is in the newly-created set afterwards.
\<close>

theorem no_down_while_newly_created:
  assumes "n \<notin> names (interfaces s)"
    and "lu_Type a = RTM_NEWLINK" and "lu_Name a = Some n"
    and "\<forall>r \<in> set mids. up_clear r"
    and "lu_Type m = RTM_NEWLINK" and "lu_Link m = Some la" and "la_Name la = n"
    and "la_Flags la AND FlagUp = 0"
    and "s0 = step_state (handleLinkUpdate a s)"
    and "loop_masked True addr route mids s0 = Running s1"
    and "s2 = step_state (handleLinkUpdate m s1)"
  shows "handleLinkUpdate a s = Running s0 \<and> handleLinkUpdate m s1 = Running s2 \<and>
         (stdout s2 = stdout s1 \<or> stdout s2 = stdout s1 @ [Interface_added]) \<and>
         (mids = [] \<longrightarrow> stdout s2 = stdout s1) \<and>
         n \<in> names (newlyCreated s2)"
proof -
  from assms(3) obtain aa where aa: "lu_Link a = Some aa" "la_Name aa = n"
    by (auto simp: lu_Name_def)
  from aa(1) assms(9) have ret_a: "handleLinkUpdate a s = Running s0"
    by (rule handleLinkUpdate_returns)
  from assms(6,11) have ret_m: "handleLinkUpdate m s1 = Running s2"
    by (rule handleLinkUpdate_returns)
  from assms(1,2,9) aa have added: "lookup (newlyCreated s0) n" "lookup (interfaces s0) n"
    by (simp_all add: names_def interfaces_handleLinkUpdate newlyCreated_handleLinkUpdate
        lu_Name_def NEWLINK_neq_DELLINK)
  then have "pending n s0"
    by (simp add: pending_def)
  from this assms(4,10) have p: "pending n s1"
    by (rule pending_loop_masked)
  have out: "stdout s2 = (if lookup (interfaces s1) n then stdout s1 else stdout s1 @ [Interface_added])"
    using p assms(5-8,11) by (simp add: stdout_handleLinkUpdate_pending)
  have direct: "stdout s2 = stdout s1" if "mids = []"
    using that out added assms(10) by simp
  have kept: "n \<in> names (newlyCreated s2)"
    using p assms(5-8,11)
    by (auto simp: names_def pending_def newlyCreated_handleLinkUpdate NEWLINK_neq_DELLINK)
  from ret_a ret_m out direct kept show ?thesis by auto
qed

theorem no_down_while_newly_created_witness:
  "''eth0'' \<notin> names (interfaces fresh) \<and>
   up_clear (updateRoute \<lparr>ru_Type = RTM_NEWROUTE, ru_Dst = None\<rparr>) \<and>
   up_clear (updateLink (link_update RTM_NEWLINK ''eth1'' 0)) \<and>
   loop_masked True False False
     [updateLink (link_update RTM_NEWLINK ''eth0'' 0),
      updateRoute \<lparr>ru_Type = RTM_NEWROUTE, ru_Dst = None\<rparr>,
      updateLink (link_update RTM_NEWLINK ''eth1'' 0)] fresh =
     Running (step_state (loop_masked True False False
       [updateRoute \<lparr>ru_Type = RTM_NEWROUTE, ru_Dst = None\<rparr>,
        updateLink (link_update RTM_NEWLINK ''eth1'' 0)]
       (step_state (handleLinkUpdate (link_update RTM_NEWLINK ''eth0'' 0) fresh)))) \<and>
   stdout (step_state (handleLinkUpdate (link_update RTM_NEWLINK ''eth0'' 0)
     (step_state (loop_masked True False False
       [updateRoute \<lparr>ru_Type = RTM_NEWROUTE, ru_Dst = None\<rparr>,
        updateLink (link_update RTM_NEWLINK ''eth1'' 0)]
       (step_state (handleLinkUpdate (link_update RTM_NEWLINK ''eth0'' 0) fresh)))))) =
     [Interface_added, Interface_added] \<and>
   ''eth0'' \<in> names (newlyCreated (step_state (handleLinkUpdate (link_update RTM_NEWLINK ''eth0'' 0)
     (step_state (loop_masked True False False
       [updateRoute \<lparr>ru_Type = RTM_NEWROUTE, ru_Dst = None\<rparr>,
        updateLink (link_update RTM_NEWLINK ''eth1'' 0)]
       (step_state (handleLinkUpdate (link_update RTM_NEWLINK ''eth0'' 0) fresh)))))))"
proof -
  let ?u = "link_update RTM_NEWLINK ''eth0'' 0"
  let ?mids = "[updateRoute \<lparr>ru_Type = RTM_NEWROUTE, ru_Dst = None\<rparr>,
    updateLink (link_update RTM_NEWLINK ''eth1'' 0)]"
  let ?s0 = "step_state (handleLinkUpdate ?u fresh)"
  let ?s1 = "step_state (loop_masked True False False ?mids ?s0)"
  let ?s2 = "step_state (handleLinkUpdate ?u ?s1)"
  have absent: "''eth0'' \<notin> names (interfaces fresh)"
    by (simp add: names_def lookup_def fresh_def)
  have clear: "\<forall>r \<in> set ?mids. up_clear r"
    by (simp add: up_clear_def link_update_def)
  have mid: "loop_masked True False False ?mids ?s0 = Running ?s1"
    by (simp add: run_defs)
  have all: "loop_masked True False False (updateLink ?u # ?mids) fresh = Running ?s1"
    by (simp add: run_defs)
  have link: "lu_Link ?u = Some \<lparr>la_Name = ''eth0'', la_Flags = 0\<rparr>"
    by (simp add: link_update_def)
  from no_down_while_newly_created
    [where n = "''eth0''" and s = fresh and a = ?u and m = ?u and mids = ?mids and addr = False
      and route = False and la = "\<lparr>la_Name = ''eth0'', la_Flags = 0\<rparr>",
      OF absent _ _ clear _ link _ _ refl mid refl]
  have kept: "''eth0'' \<in> names (newlyCreated ?s2)"
    by (simp add: FlagUp_def lu_Name_def link_update_def)
  have after: "stdout ?s2 = [Interface_added, Interface_added]"
    by (simp add: run_defs)
  from absent clear all kept after show ?thesis by simp
qed

text \<open>
  C3. A link-delete notification for a name is handled without error, and afterwards the
  name is in neither set, whatever the two sets were before; when the name was in
  neither set the two sets are unchanged; and handling the same notification a second
  time leaves both maps as the first time left them. (Each handling still prints its
  line and sends its signal: the statement is about the two sets.)
\<close>

theorem link_delete_clears_both_sets:
  assumes "lu_Type u = RTM_DELLINK" and "lu_Name u = Some n"
    and "s1 = step_state (handleLinkUpdate u s)"
    and "s2 = step_state (handleLinkUpdate u s1)"
  shows "handleLinkUpdate u s = Running s1 \<and> handleLinkUpdate u s1 = Running s2 \<and>
         n \<notin> names (interfaces s1) \<and> n \<notin> names (newlyCreated s1) \<and>
         (n \<notin> names (interfaces s) \<and> n \<notin> names (newlyCreated s) \<longrightarrow>
            names (interfaces s1) = names (interfaces s) \<and>
            names (newlyCreated s1) = names (newlyCreated s)) \<and>
         interfaces s2 = interfaces s1 \<and> newlyCreated s2 = newlyCreated s1"
proof -
  from assms(2) obtain a where a: "lu_Link u = Some a" "la_Name a = n"
    by (auto simp: lu_Name_def)
  from a(1) assms(3) have ret1: "handleLinkUpdate u s = Running s1"
    by (rule handleLinkUpdate_returns)
  from a(1) assms(4) have ret2: "handleLinkUpdate u s1 = Running s2"
    by (rule handleLinkUpdate_returns)
  note ret = ret1 ret2
  have gone: "n \<notin> names (interfaces s1)" "n \<notin> names (newlyCreated s1)"
    using assms(1,3) a
    by (simp_all add: names_def interfaces_handleLinkUpdate newlyCreated_handleLinkUpdate
        lu_Name_def)
  have same: "names (interfaces s1) = names (interfaces s)"
    "names (newlyCreated s1) = names (newlyCreated s)"
    if "n \<notin> names (interfaces s)" "n \<notin> names (newlyCreated s)"
    using assms(1,3) a that
    by (auto simp: names_def interfaces_handleLinkUpdate newlyCreated_handleLinkUpdate lu_Name_def)
  have twice: "interfaces s2 = interfaces s1" "newlyCreated s2 = newlyCreated s1"
    using assms(1,3,4) a
    by (simp_all add: handleLinkUpdate_def send_simps Println_simps delete_delete)
  from ret gone same twice show ?thesis by blast
qed

theorem link_delete_clears_both_sets_witness:
  "''eth0'' \<in> names (interfaces (range_links [''lo'', ''eth0''] fresh)) \<and>
   handleLinkUpdate (link_update RTM_DELLINK ''eth0'' 0) (range_links [''lo'', ''eth0''] fresh) =
     Running (step_state (handleLinkUpdate (link_update RTM_DELLINK ''eth0'' 0)
       (range_links [''lo'', ''eth0''] fresh))) \<and>
   ''eth0'' \<notin> names (interfaces (step_state
      (handleLinkUpdate (link_update RTM_DELLINK ''eth0'' 0) (range_links [''lo'', ''eth0''] fresh)))) \<and>
   ''wg0'' \<notin> names (interfaces (range_links [''lo'', ''eth0''] fresh)) \<and>
   names (interfaces (step_state
      (handleLinkUpdate (link_update RTM_DELLINK ''wg0'' 0) (range_links [''lo'', ''eth0''] fresh)))) =
     names (interfaces (range_links [''lo'', ''eth0''] fresh))"
proof -
  let ?s = "range_links [''lo'', ''eth0''] fresh"
  have here: "''eth0'' \<in> names (interfaces ?s)" "''wg0'' \<notin> names (interfaces ?s)"
    "''wg0'' \<notin> names (newlyCreated ?s)"
    by (simp_all add: names_def lookup_def store_true_def fresh_def)
  have ty: "lu_Type (link_update RTM_DELLINK n 0) = RTM_DELLINK"
    "lu_Name (link_update RTM_DELLINK n 0) = Some n" for n
    by (simp_all add: link_update_def lu_Name_def)
  from link_delete_clears_both_sets [OF ty(1) ty(2) refl refl, of "''eth0''" ?s]
  have one: "handleLinkUpdate (link_update RTM_DELLINK ''eth0'' 0) ?s =
      Running (step_state (handleLinkUpdate (link_update RTM_DELLINK ''eth0'' 0) ?s))"
    "''eth0'' \<notin> names (interfaces (step_state
      (handleLinkUpdate (link_update RTM_DELLINK ''eth0'' 0) ?s)))"
    by blast+
  from link_delete_clears_both_sets [OF ty(1) ty(2) refl refl, of "''wg0''" ?s] here
  have two: "names (interfaces (step_state (handleLinkUpdate (link_update RTM_DELLINK ''wg0'' 0) ?s))) =
      names (interfaces ?s)"
    by blast
  from here one two show ?thesis by blast
qed

text \<open>
  C4. When \<^verbatim>\<open>net.InterfaceByIndex\<close> fails for the index of an address notification,
  the address handler sends nothing and leaves both maps as they are: the only effect is
  the printed line, and the handler returns normally, so the loop goes on.
\<close>

theorem unresolved_address_is_dropped:
  assumes "tbl (au_LinkIndex u) = None"
  shows "handleAddrUpdate tbl u s =
           s\<lparr>stdout := stdout s @ [Address_removed_from_the_deleted_interface (au_IP u)]\<rparr>"
  using assms by (simp add: handleAddrUpdate_def Println_def)

theorem unresolved_address_is_dropped_witness:
  "handleAddrUpdate (\<lambda>i. None) \<lparr>au_LinkIndex = 7, au_NewAddr = False, au_IP = [10, 0, 0, 1]\<rparr> fresh =
     fresh\<lparr>stdout := [Address_removed_from_the_deleted_interface [10, 0, 0, 1]]\<rparr>"
  using unresolved_address_is_dropped
    [where tbl = "\<lambda>i. None" and s = fresh
      and u = "\<lparr>au_LinkIndex = 7, au_NewAddr = False, au_IP = [10, 0, 0, 1]\<rparr>"]
  by (simp add: fresh_def)

text \<open>
  C5. For a flag outside 1..7, \<^verbatim>\<open>StartMonitoring\<close> prints the error and returns at
  once: no subscription is established, no notification of the run is handled and
  nothing is sent, whatever the host and the notifications are.
\<close>

theorem invalid_flag_returns_at_once:
  assumes "flag < 1 \<or> 7 < flag"
  shows "StartMonitoring h flag rs =
           Returned [] \<lparr>interfaces = Map.empty, newlyCreated = Map.empty, chan_c = [],
                        stdout = [Error_invalid_flag]\<rparr>"
proof -
  from assms have "switch_flag flag = None"
    by (auto simp: switch_flag_def)
  then show ?thesis
    by (simp add: StartMonitoring_def Println_def fresh_def)
qed

theorem invalid_flag_returns_at_once_witness:
  "StartMonitoring
     \<lparr>AddrSubscribe = None, LinkSubscribe = None, RouteSubscribe = None, LinkList = Inr [''lo'']\<rparr> 8
     [updateLink (link_update RTM_NEWLINK ''eth9'' 0)] =
   Returned [] \<lparr>interfaces = Map.empty, newlyCreated = Map.empty, chan_c = [],
                stdout = [Error_invalid_flag]\<rparr>"
  using invalid_flag_returns_at_once [where flag = 8]
  by simp

text \<open>
  C6. For a valid flag and a notification whose class the flag switches off, the loop
  body leaves the whole state as it is (both maps, the channel, the printed lines),
  whereas a call of the handler never does, so the handler is not called; the
  notification can be removed from a run without changing what the run ends in. All
  three subscriptions are established all the same when the host grants them.
\<close>

theorem disabled_class_is_dropped:
  assumes "switch_flag flag = Some (link, addr, route)" and "\<not> enabled link addr route r"
  shows "select_masked link addr route r s = Running s \<and> select_all r s \<noteq> Running s \<and>
         loop_masked link addr route (pre @ r # post) s = loop_masked link addr route (pre @ post) s \<and>
         (AddrSubscribe h = None \<and> LinkSubscribe h = None \<and> RouteSubscribe h = None \<and>
          LinkList h = Inr links \<longrightarrow>
            StartMonitoring h flag rs =
              in_loop [chAddr, chLink, chRoute]
                (loop_masked link addr route rs (range_links links fresh)))"
proof -
  have "loop_masked link addr route (pre @ r # post) s =
        loop_masked link addr route (filter (enabled link addr route) (pre @ r # post)) s"
    by (simp only: loop_masked_filter_enabled)
  also have "\<dots> = loop_masked link addr route (filter (enabled link addr route) (pre @ post)) s"
    using assms(2) by simp
  also have "\<dots> = loop_masked link addr route (pre @ post) s"
    by (simp only: loop_masked_filter_enabled)
  finally have run: "loop_masked link addr route (pre @ r # post) s =
      loop_masked link addr route (pre @ post) s" .
  have start: "StartMonitoring h flag rs =
      in_loop [chAddr, chLink, chRoute] (loop_masked link addr route rs (range_links links fresh))"
    if "AddrSubscribe h = None" "LinkSubscribe h = None" "RouteSubscribe h = None"
      "LinkList h = Inr links"
    using assms(1) that by (simp add: StartMonitoring_def)
  from run start show ?thesis
    using assms(2) by (simp add: select_masked_disabled select_all_changes)
qed

theorem disabled_class_is_dropped_witness:
  "switch_flag 3 = Some (True, True, False) \<and>
   \<not> enabled True True False (updateRoute \<lparr>ru_Type = RTM_NEWROUTE, ru_Dst = None\<rparr>) \<and>
   select_masked True True False (updateRoute \<lparr>ru_Type = RTM_NEWROUTE, ru_Dst = None\<rparr>) fresh =
     Running fresh \<and>
   StartMonitoring
     \<lparr>AddrSubscribe = None, LinkSubscribe = None, RouteSubscribe = None, LinkList = Inr [''lo'']\<rparr> 3
     [updateRoute \<lparr>ru_Type = RTM_NEWROUTE, ru_Dst = None\<rparr>] =
   Selecting [chAddr, chLink, chRoute] (range_links [''lo''] fresh)"
proof -
  let ?r = "updateRoute \<lparr>ru_Type = RTM_NEWROUTE, ru_Dst = None\<rparr>"
  let ?h = "\<lparr>AddrSubscribe = None, LinkSubscribe = None, RouteSubscribe = None,
    LinkList = Inr [''lo'']\<rparr>"
  have mask: "switch_flag 3 = Some (True, True, False)"
    by (simp add: switch_flag_def)
  have off: "\<not> enabled True True False ?r"
    by (simp add: enabled_def)
  from disabled_class_is_dropped
    [OF mask off, where s = "range_links [''lo''] fresh" and pre = "[]" and post = "[]"
      and h = ?h and links = "[''lo'']" and rs = "[?r]"]
    disabled_class_is_dropped [OF mask off, where s = fresh and pre = "[]" and post = "[]"]
  have "select_masked True True False ?r fresh = Running fresh"
    and "StartMonitoring ?h 3 [?r] = Selecting [chAddr, chLink, chRoute] (range_links [''lo''] fresh)"
    by (simp_all add: in_loop_def)
  with mask off show ?thesis by simp
qed

text \<open>
  C7. The newly-created set is a subset of the existence set in the state the loop
  starts from (the enumerated names in the existence set, the newly-created set empty),
  handling a link notification of any kind keeps it so, and so it holds in every state
  either entry point reaches.
\<close>

theorem newlyCreated_subset_interfaces:
  "subset_invariant (range_links links fresh) \<and>
   (subset_invariant s \<longrightarrow> subset_invariant (step_state (handleLinkUpdate u s))) \<and>
   subset_invariant (state_of (StartMonitoring h flag rs)) \<and>
   subset_invariant (state_of (startMonitoring h rs))"
  by (simp add: subset_invariant_seeded subset_invariant_handleLinkUpdate
      subset_invariant_StartMonitoring subset_invariant_startMonitoring)

theorem newlyCreated_subset_interfaces_witness:
  "subset_invariant (range_links [''lo''] fresh) \<and>
   subset_invariant
     (step_state (handleLinkUpdate (link_update RTM_NEWLINK ''eth9'' 0) (range_links [''lo''] fresh))) \<and>
   ''eth9'' \<in> names (newlyCreated
     (step_state (handleLinkUpdate (link_update RTM_NEWLINK ''eth9'' 0) (range_links [''lo''] fresh)))) \<and>
   ''eth9'' \<in> names (interfaces
     (step_state (handleLinkUpdate (link_update RTM_NEWLINK ''eth9'' 0) (range_links [''lo''] fresh))))"
proof -
  let ?u = "link_update RTM_NEWLINK ''eth9'' 0"
  let ?s = "range_links [''lo''] fresh"
  from newlyCreated_subset_interfaces [where links = "[''lo'']" and s = ?s and u = ?u]
  have inv: "subset_invariant ?s" "subset_invariant (step_state (handleLinkUpdate ?u ?s))"
    by simp_all
  have new: "''eth9'' \<in> names (newlyCreated (step_state (handleLinkUpdate ?u ?s)))"
    by (simp add: names_def run_defs)
  with inv(2) have "''eth9'' \<in> names (interfaces (step_state (handleLinkUpdate ?u ?s)))"
    unfolding subset_invariant_def by blast
  with inv new show ?thesis by simp
qed

text \<open>
  C8. In every state the monitoring loop reaches, a name is in the existence set exactly
  when, in the history of link notifications handled so far, a link-add notification for
  it is followed by no link-delete notification for it, the names enumerated at startup
  counting as added before the history begins.
\<close>

theorem present_iff_added_and_not_deleted:
  assumes "StartMonitoring h flag rs = Selecting subs s"
    and "switch_flag flag = Some (link, addr, route)"
    and "LinkList h = Inr seeded"
  shows "lu_n \<in> names (interfaces s) \<longleftrightarrow> added_and_not_deleted seeded (handled_links link rs) lu_n"
proof -
  from assms have "loop_masked link addr route rs (range_links seeded fresh) = Running s"
    by (auto simp: StartMonitoring_def in_loop_def split: option.splits step.splits)
  then show ?thesis
    by (simp add: names_def interfaces_loop_masked)
qed

theorem present_iff_added_and_not_deleted_witness:
  "StartMonitoring
     \<lparr>AddrSubscribe = None, LinkSubscribe = None, RouteSubscribe = None, LinkList = Inr [''lo'']\<rparr> 1
     [updateLink (link_update RTM_NEWLINK ''eth9'' 0), updateLink (link_update RTM_DELLINK ''lo'' 0)] =
     Selecting [chAddr, chLink, chRoute]
       (step_state (loop_masked True False False
         [updateLink (link_update RTM_NEWLINK ''eth9'' 0),
          updateLink (link_update RTM_DELLINK ''lo'' 0)]
         (range_links [''lo''] fresh))) \<and>
   ''eth9'' \<in> names (interfaces
      (step_state (loop_masked True False False
         [updateLink (link_update RTM_NEWLINK ''eth9'' 0),
          updateLink (link_update RTM_DELLINK ''lo'' 0)]
         (range_links [''lo''] fresh)))) \<and>
   ''lo'' \<notin> names (interfaces
      (step_state (loop_masked True False False
         [updateLink (link_update RTM_NEWLINK ''eth9'' 0),
          updateLink (link_update RTM_DELLINK ''lo'' 0)]
         (range_links [''lo''] fresh)))) \<and>
   added_and_not_deleted [''lo'']
     [link_update RTM_NEWLINK ''eth9'' 0, link_update RTM_DELLINK ''lo'' 0] ''eth9'' \<and>
   \<not> added_and_not_deleted [''lo'']
     [link_update RTM_NEWLINK ''eth9'' 0, link_update RTM_DELLINK ''lo'' 0] ''lo''"
proof -
  let ?a = "link_update RTM_NEWLINK ''eth9'' 0"
  let ?d = "link_update RTM_DELLINK ''lo'' 0"
  let ?h = "\<lparr>AddrSubscribe = None, LinkSubscribe = None, RouteSubscribe = None,
    LinkList = Inr [''lo'']\<rparr>"
  let ?s = "step_state (loop_masked True False False [updateLink ?a, updateLink ?d]
    (range_links [''lo''] fresh))"
  have mask: "switch_flag 1 = Some (True, False, False)"
    by (simp add: switch_flag_def)
  have run: "StartMonitoring ?h 1 [updateLink ?a, updateLink ?d] =
      Selecting [chAddr, chLink, chRoute] ?s"
    by (simp add: StartMonitoring_def mask in_loop_def select_masked_def handleLinkUpdate_def
        link_update_def)
  have seed: "LinkList ?h = Inr [''lo'']"
    by simp
  have hist: "added_and_not_deleted [''lo''] [?a, ?d] ''eth9''"
    "\<not> added_and_not_deleted [''lo''] [?a, ?d] ''lo''"
    by (simp_all add: added_and_not_deleted_def is_add_def is_delete_def lessThan_Suc
        lu_Name_def link_update_def RTM_NEWLINK_def RTM_DELLINK_def)
  from present_iff_added_and_not_deleted [OF run mask seed, of "''eth9''"]
    present_iff_added_and_not_deleted [OF run mask seed, of "''lo''"] hist run
  show ?thesis by simp
qed

text \<open>
  C9. On the same host and the same notifications, \<^verbatim>\<open>startMonitoring\<close> and
  \<^verbatim>\<open>StartMonitoring\<close> with flag 7 have the same outcome: the same subscriptions,
  the same maps, the same signals sent and the same lines printed, and a panic in the
  one is the same panic in the other.
\<close>

theorem startMonitoring_is_StartMonitoring_7:
  "startMonitoring h rs = StartMonitoring h 7 rs"
  by (simp add: startMonitoring_def StartMonitoring_def switch_flag_def loop_masked_all
      split: option.split sum.split)

theorem startMonitoring_is_StartMonitoring_7_witness:
  "startMonitoring
     \<lparr>AddrSubscribe = None, LinkSubscribe = None, RouteSubscribe = None, LinkList = Inr [''lo'']\<rparr>
     [updateLink (link_update RTM_NEWLINK ''eth9'' 0), updateLink LinkUpdate_zero] =
   StartMonitoring
     \<lparr>AddrSubscribe = None, LinkSubscribe = None, RouteSubscribe = None, LinkList = Inr [''lo'']\<rparr> 7
     [updateLink (link_update RTM_NEWLINK ''eth9'' 0), updateLink LinkUpdate_zero]"
  by (rule startMonitoring_is_StartMonitoring_7)

text \<open>
  C10. The property: a link update whose header type is neither \<^verbatim>\<open>RTM_NEWLINK\<close> nor
  \<^verbatim>\<open>RTM_DELLINK\<close> makes the link handler send exactly one signal and change nothing
  else. The code does so when the update carries a link
  (\<open>handleLinkUpdate_other_type_linked\<close>). The zero value
  \<^verbatim>\<open>netlink.LinkUpdate{}\<close>, which the loop receives from the closed channel, has
  header type 0 and no link: for it the handler evaluates
  \<^verbatim>\<open>updateLink.Link.Attrs()\<close> in the condition of its second branch and panics, so
  no signal is sent.
\<close>

theorem handleLinkUpdate_zero_value_panics:
  "lu_Type LinkUpdate_zero \<noteq> RTM_NEWLINK \<and> lu_Type LinkUpdate_zero \<noteq> RTM_DELLINK \<and>
   handleLinkUpdate LinkUpdate_zero s = Panicked s"
  by (simp add: LinkUpdate_zero_def RTM_NEWLINK_def RTM_DELLINK_def handleLinkUpdate_def)

theorem handleLinkUpdate_zero_value_panics_witness:
  "handleLinkUpdate \<lparr>lu_Type = 0, lu_Link = None\<rparr> fresh = Panicked fresh"
  using handleLinkUpdate_zero_value_panics [of fresh]
  by (simp add: LinkUpdate_zero_def)

end
